theory Spec2Isabelle
  imports Complex_Main "HOL-Library.Log_Nat"
begin

section \<open>Python strings\<close>

text \<open>
  A Python \<open>str\<close> is a sequence of code points. It is modelled as a \<open>string\<close> whose
  characters are the code points below 256 (the Latin-1 range, which holds the degree sign
  U+00B0 of the unit pattern). The character classes below are Python's on that range.
\<close>

definition is_space :: "char \<Rightarrow> bool" where
  \<comment> \<open>\<open>str.isspace\<close>, also the \<open>\s\<close> of \<open>re\<close> on a \<open>str\<close> pattern\<close>
  "is_space c = (c \<in> set [CHR 0x09, CHR 0x0A, CHR 0x0B, CHR 0x0C, CHR 0x0D,
                            CHR 0x1C, CHR 0x1D, CHR 0x1E, CHR 0x1F, CHR 0x20,
                            CHR 0x85, CHR 0xA0])"

definition lstrip :: "string \<Rightarrow> string" where
  "lstrip s = dropWhile is_space s"

definition rstrip :: "string \<Rightarrow> string" where
  "rstrip s = rev (dropWhile is_space (rev s))"

definition strip :: "string \<Rightarrow> string" where
  "strip s = rstrip (lstrip s)"

definition lstrip_chars :: "string \<Rightarrow> string \<Rightarrow> string" where
  \<comment> \<open>\<open>s.lstrip(chars)\<close>: drops leading characters that occur in \<open>chars\<close>\<close>
  "lstrip_chars chars s = dropWhile (\<lambda>c. c \<in> set chars) s"

definition startswith :: "string \<Rightarrow> string \<Rightarrow> bool" where
  "startswith s p = (take (length p) s = p)"

definition endswith :: "string \<Rightarrow> string \<Rightarrow> bool" where
  "endswith s p = (length p \<le> length s \<and> drop (length s - length p) s = p)"

fun contains :: "string \<Rightarrow> string \<Rightarrow> bool" where
  \<comment> \<open>\<open>p in s\<close> for strings: \<open>p\<close> occurs in \<open>s\<close> as a contiguous substring\<close>
  "contains [] p = (p = [])"
| "contains (c # cs) p = (startswith (c # cs) p \<or> contains cs p)"

fun split_on :: "char \<Rightarrow> string \<Rightarrow> string list" where
  \<comment> \<open>\<open>s.split(sep)\<close> for a one-character separator: never an empty list\<close>
  "split_on sep [] = [[]]"
| "split_on sep (c # cs) =
     (if c = sep then [] # split_on sep cs
      else (case split_on sep cs of
              [] \<Rightarrow> [[c]]
            | w # ws \<Rightarrow> (c # w) # ws))"

fun join_with :: "char \<Rightarrow> string list \<Rightarrow> string" where
  \<comment> \<open>\<open>sep.join(parts)\<close> for a one-character separator\<close>
  "join_with sep [] = []"
| "join_with sep [w] = w"
| "join_with sep (w # v # ws) = w @ sep # join_with sep (v # ws)"

definition lower_char :: "char \<Rightarrow> char" where
  "lower_char c =
     (let n = (of_char c :: nat)
      in if (65 \<le> n \<and> n \<le> 90) \<or> (192 \<le> n \<and> n \<le> 222 \<and> n \<noteq> 215)
         then char_of (n + 32) else c)"

definition lower :: "string \<Rightarrow> string" where
  "lower s = map lower_char s"


section \<open>Dictionaries\<close>

text \<open>
  A \<open>dict\<close> is an association list in insertion order. Assigning to a key that is
  already there replaces the value where it stands; a new key goes to the end.
\<close>

fun dict_set :: "'k \<Rightarrow> 'v \<Rightarrow> ('k \<times> 'v) list \<Rightarrow> ('k \<times> 'v) list" where
  "dict_set k v [] = [(k, v)]"
| "dict_set k v ((k', v') # kvs) =
     (if k' = k then (k, v) # kvs else (k', v') # dict_set k v kvs)"

definition dict_get :: "('k \<times> 'v) list \<Rightarrow> 'k \<Rightarrow> 'v option" where
  \<comment> \<open>\<open>d.get(k)\<close>\<close>
  "dict_get d k = map_of d k"

definition dict_get_default :: "('k \<times> 'v) list \<Rightarrow> 'k \<Rightarrow> 'v \<Rightarrow> 'v" where
  \<comment> \<open>\<open>d.get(k, default)\<close>\<close>
  "dict_get_default d k dflt = (case map_of d k of None \<Rightarrow> dflt | Some v \<Rightarrow> v)"

definition dict_keys :: "('k \<times> 'v) list \<Rightarrow> 'k list" where
  "dict_keys d = map fst d"

definition dict_has :: "('k \<times> 'v) list \<Rightarrow> 'k \<Rightarrow> bool" where
  \<comment> \<open>\<open>k in d\<close>\<close>
  "dict_has d k = (k \<in> set (dict_keys d))"

section \<open>Numbers as text\<close>

fun str_nat :: "nat \<Rightarrow> string" where
  \<comment> \<open>\<open>str(n)\<close> of a non-negative \<open>int\<close>, as an f-string prints a count\<close>
  "str_nat n =
     (if n < 10 then [char_of (48 + n)]
      else str_nat (n div 10) @ [char_of (48 + n mod 10)])"

declare str_nat.simps [simp del]

section \<open>The document model (\<open>ast/models.py\<close>)\<close>

record Constraint =
  c_name :: string
  c_operator :: string
  c_value :: rat
  c_unit :: "string option"

record ThreeC =
  clear :: bool
  cheap :: bool
  safe :: bool

text \<open>
  The fields of \<open>PSLDocument\<close>. The record is polymorphic in what the constraints, the
  section values, \<open>three_c\<close> and \<open>gloss\<close> hold: the instance \<open>Document\<close> is a document
  as \<open>models.py\<close> annotates it, which is what the constructor of the pydantic model
  returns, and the instance \<open>PSLDocument_args\<close> (with the parser) is the keyword arguments
  that the parser passes to the constructor, before it validates them.
  A \<open>dict\<close> keeps insertion order, so \<open>sections\<close> is an association list.
\<close>

record ('c, 'v, 't, 'g) PSLDocument =
  version :: string
  doc_context :: string
  goal :: string
  constraints :: "'c list"
  resources :: "string list option"
  skill :: "string option"
  sections :: "(string \<times> 'v) list"
  three_c :: "'t option"
  gloss :: "'g option"

type_synonym Document = "(Constraint, string list, ThreeC, string) PSLDocument"

section \<open>The unit pattern (\<open>re.search\<close>)\<close>

definition is_word :: "char \<Rightarrow> bool" where
  "is_word c =
     (let n = (of_char c :: nat)
      in (48 \<le> n \<and> n \<le> 57) \<or> (65 \<le> n \<and> n \<le> 90) \<or> n = 95 \<or> (97 \<le> n \<and> n \<le> 122)
         \<or> n = 170 \<or> n = 178 \<or> n = 179 \<or> n = 181 \<or> n = 185 \<or> n = 186
         \<or> (188 \<le> n \<and> n \<le> 190) \<or> (192 \<le> n \<and> n \<le> 214)
         \<or> (216 \<le> n \<and> n \<le> 246) \<or> (248 \<le> n \<and> n \<le> 255))"

definition is_digit :: "char \<Rightarrow> bool" where
  "is_digit c = (c \<in> set ''0123456789'')"

datatype cclass = Digit | Whitespace

datatype regex =
    Boundary
  | OneOf "string list"
  | Star cclass
  | Plus cclass
  | Opt regex
  | Seq regex regex

fun in_class :: "cclass \<Rightarrow> char \<Rightarrow> bool" where
  "in_class Digit c = is_digit c"
| "in_class Whitespace c = is_space c"

definition at_boundary :: "string \<Rightarrow> nat \<Rightarrow> bool" where
  "at_boundary s i =
     ((0 < i \<and> i \<le> length s \<and> is_word (s ! (i - 1))) \<noteq> (i < length s \<and> is_word (s ! i)))"

definition run :: "cclass \<Rightarrow> string \<Rightarrow> nat \<Rightarrow> nat" where
  "run c s i = length (takeWhile (in_class c) (drop i s))"

fun ends :: "regex \<Rightarrow> string \<Rightarrow> nat \<Rightarrow> nat list" where
  "ends Boundary s i = (if at_boundary s i then [i] else [])"
| "ends (OneOf ps) s i =
     concat (map (\<lambda>p. if lower (take (length p) (drop i s)) = lower p then [i + length p] else []) ps)"
| "ends (Star c) s i = map (\<lambda>k. i + k) [0..<Suc (run c s i)]"
| "ends (Plus c) s i = map (\<lambda>k. i + k) [1..<Suc (run c s i)]"
| "ends (Opt r) s i = ends r s i @ [i]"
| "ends (Seq r1 r2) s i = concat (map (ends r2 s) (ends r1 s i))"

definition re_search :: "regex \<Rightarrow> string \<Rightarrow> bool" where
  "re_search r s = list_ex (\<lambda>i. ends r s i \<noteq> []) [0..<Suc (length s)]"

definition number_with_unit :: "string list \<Rightarrow> regex" where
  "number_with_unit us =
     Seq Boundary (Seq (Plus Digit) (Seq (Opt (OneOf [''.''])) (Seq (Star Digit)
       (Seq (Star Whitespace) (Seq (OneOf us) Boundary)))))"

definition l03_number_pattern :: regex where
  "l03_number_pattern =
     number_with_unit [''usd'', ''min'', ''g'', ''kg'', ''kcal'', [CHR 0xB0, CHR ''C''], ''mm'', ''cm'']"


section \<open>The validator (\<open>validator/l_rules.py\<close>)\<close>

record Issue =
  rule :: string
  level :: string
  message :: string

text \<open>
  Every check reads the document and appends to \<open>self.issues\<close>: it is a function from
  the document and the issue list so far to the issue list afterwards.
\<close>

definition validate_l02_hyp_rollback_pairing :: "Document \<Rightarrow> Issue list \<Rightarrow> Issue list" where
  "validate_l02_hyp_rollback_pairing doc issues =
     (let hyp_count = length (dict_get_default (sections doc) ''HYP'' []);
          rollback_count = length (dict_get_default (sections doc) ''ROLLBACK'' [])
      in if hyp_count \<noteq> rollback_count
         then issues @ [\<lparr>rule = ''L-02'', level = ''error'',
                          message = ''HYP/ROLLBACK count mismatch. HYP: '' @ str_nat hyp_count
                                    @ '', ROLLBACK: '' @ str_nat rollback_count\<rparr>]
         else issues)"

text \<open>The text an f-string prints for a list of plain strings: \<open>['FACT', 'HYP']\<close>.\<close>

definition py_repr_list :: "string list \<Rightarrow> string" where
  "py_repr_list xs =
     ''['' @ concat (map (\<lambda>(k, x). (if k = 0 then [] else '', '') @ [CHR 0x27] @ x @ [CHR 0x27])
                        (enumerate 0 xs)) @ '']''"

definition expected_order :: "string list" where
  "expected_order = [''FACT'', ''TECHNIQUE'', ''HYP'', ''ROLLBACK'', ''SAFETY'',
                     ''ASSUMPTIONS'', ''CHECKLIST'', ''3C'', ''GLOSS'']"

definition validate_l01_section_order :: "Document \<Rightarrow> Issue list \<Rightarrow> Issue list" where
  "validate_l01_section_order doc issues =
     (let actual_sections = filter (\<lambda>s. s \<in> set expected_order) (dict_keys (sections doc));
          expected_actual = filter (\<lambda>s. s \<in> set actual_sections) expected_order
      in if actual_sections \<noteq> expected_actual
         then issues @ [\<lparr>rule = ''L-01'', level = ''error'',
                          message = ''Section order violation. Expected: ''
                                    @ py_repr_list expected_actual @ '', Got: ''
                                    @ py_repr_list actual_sections\<rparr>]
         else issues)"

definition l03_item :: "string \<Rightarrow> string \<Rightarrow> Issue list \<Rightarrow> Issue list" where
  "l03_item section_name item issues =
     (if re_search l03_number_pattern item
      then issues @ [\<lparr>rule = ''L-03'', level = ''warning'',
                       message = ''Number found in ['' @ section_name @ '']: '' @ item\<rparr>]
      else issues)"

definition l03_section :: "string \<times> string list \<Rightarrow> Issue list \<Rightarrow> Issue list" where
  "l03_section = (\<lambda>(section_name, items) issues.
     if section_name = ''FACT'' then issues
     else fold (l03_item section_name) items issues)"

definition validate_l03_numbers_outside_fact :: "Document \<Rightarrow> Issue list \<Rightarrow> Issue list" where
  "validate_l03_numbers_outside_fact doc issues = fold l03_section (sections doc) issues"

text \<open>
  Modelled from the spec: the checks L-04 to L-10, which \<open>validate\<close> calls and
  \<open>l_rules.py\<close> does not define. The specification gives each the shape of a pure
  function from the document to zero or more issues, independent of the other rules; what
  each of them reports is left open, so they are parameters.
\<close>

record later_rules =
  l04_unit_normalization :: "Document \<Rightarrow> Issue list"
  l05_constraints_parsing :: "Document \<Rightarrow> Issue list"
  l06_checklist_constraints_link :: "Document \<Rightarrow> Issue list"
  l07_three_c_completeness :: "Document \<Rightarrow> Issue list"
  l08_safety_requirements :: "Document \<Rightarrow> Issue list"
  l09_duplicate_items :: "Document \<Rightarrow> Issue list"
  l10_sentence_clarity :: "Document \<Rightarrow> Issue list"

text \<open>
  Modelled from the spec: a call of one of the checks L-04 to L-10 appends the issues of
  that check to \<open>self.issues\<close>.
\<close>

definition validate_later :: "(Document \<Rightarrow> Issue list) \<Rightarrow> Document \<Rightarrow> Issue list \<Rightarrow> Issue list" where
  "validate_later check doc issues = issues @ check doc"

text \<open>
  \<open>validate\<close> resets \<open>self.issues\<close>, whatever an earlier run left there, calls the ten
  checks in order and returns \<open>self.issues\<close>.
\<close>

definition validate :: "later_rules \<Rightarrow> Document \<Rightarrow> Issue list \<Rightarrow> Issue list" where
  "validate later document self_issues =
     (let issues = [];
          issues = validate_l01_section_order document issues;
          issues = validate_l02_hyp_rollback_pairing document issues;
          issues = validate_l03_numbers_outside_fact document issues;
          issues = validate_later (l04_unit_normalization later) document issues;
          issues = validate_later (l05_constraints_parsing later) document issues;
          issues = validate_later (l06_checklist_constraints_link later) document issues;
          issues = validate_later (l07_three_c_completeness later) document issues;
          issues = validate_later (l08_safety_requirements later) document issues;
          issues = validate_later (l09_duplicate_items later) document issues;
          issues = validate_later (l10_sentence_clarity later) document issues
      in issues)"

section \<open>Floats\<close>










section \<open>Metrics (\<open>metrics/calculator.py\<close>)\<close>

definition calculate_three_c_score :: "Document \<Rightarrow> rat" where
  "calculate_three_c_score document =
     (case three_c document of
        None \<Rightarrow> 0
      | Some t \<Rightarrow>
          (let score = 0;
               score = (if clear t then score + 34 / 100 else score);
               score = (if cheap t then score + 33 / 100 else score);
               score = (if safe t then score + 33 / 100 else score)
           in score))"

datatype pyobj = PyNone | PyNum rat | PyStr string

definition is_constraint_satisfied :: "Constraint \<Rightarrow> pyobj \<Rightarrow> bool" where
  \<comment> \<open>a comparison of a non-number with a float raises TypeError, which is caught;
      \<open>==\<close> on a non-number is False\<close>
  "is_constraint_satisfied constraint actual_value =
     (case actual_value of
        PyNum a \<Rightarrow>
          (if c_operator constraint = ''<='' then a \<le> c_value constraint
           else if c_operator constraint = ''>='' then a \<ge> c_value constraint
           else if c_operator constraint = ''<'' then a < c_value constraint
           else if c_operator constraint = ''>'' then a > c_value constraint
           else if c_operator constraint = ''='' then a = c_value constraint
           else False)
      | _ \<Rightarrow> False)"

fun csr_loop :: "(string \<times> pyobj) list \<Rightarrow> Constraint list \<Rightarrow> nat \<Rightarrow> nat" where
  \<comment> \<open>the \<open>for constraint in document.constraints\<close> loop, with \<open>satisfied_count\<close>\<close>
  "csr_loop execution_result [] satisfied_count = satisfied_count"
| "csr_loop execution_result (constraint # cs) satisfied_count =
     (case dict_get execution_result (c_name constraint) of
        None \<Rightarrow> csr_loop execution_result cs satisfied_count
      | Some PyNone \<Rightarrow> csr_loop execution_result cs satisfied_count
      | Some actual_value \<Rightarrow>
          (if is_constraint_satisfied constraint actual_value
           then csr_loop execution_result cs (satisfied_count + 1)
           else csr_loop execution_result cs satisfied_count))"

definition calculate_csr :: "Document \<Rightarrow> (string \<times> pyobj) list option \<Rightarrow> rat" where
  "calculate_csr document execution_result =
     (if constraints document = [] then 1
      else (case execution_result of
              None \<Rightarrow> 0
            | Some er \<Rightarrow>
                (if er = [] then 0
                 else of_nat (csr_loop er (constraints document) 0)
                      / of_nat (length (constraints document)))))"

definition mandatory_sections :: "string list" where
  "mandatory_sections =
     [''FACT'', ''TECHNIQUE'', ''HYP'', ''ROLLBACK'', ''SAFETY'', ''CHECKLIST'', ''3C'']"

definition coverage_step :: "Document \<Rightarrow> string \<Rightarrow> nat \<Rightarrow> nat" where
  \<comment> \<open>the body of the \<open>for section in mandatory_sections\<close> loop\<close>
  "coverage_step document section completed =
     (if dict_has (sections document) section
      then (if section = ''3C'' \<and> three_c document \<noteq> None then completed + 1
            else if section \<noteq> ''3C'' then completed + 1
            else completed)
      else completed)"

definition calculate_psl_coverage :: "Document \<Rightarrow> rat" where
  "calculate_psl_coverage document =
     of_nat (fold (coverage_step document) mandatory_sections 0)
     / of_nat (length mandatory_sections)"










section \<open>The header parser (\<open>parser/header_parser.py\<close>)\<close>

definition newline :: char where
  "newline = CHR 0x0A"

text \<open>
  The result of \<open>PSLHeaderParser.parse\<close> is a dict with at most six known keys: a record
  of options, \<open>None\<close> for a key that is not in the dict.
\<close>

record header_data =
  h_version :: "string option"
  h_context :: "string option"
  h_goal :: "string option"
  h_constraints :: "string list option"
  h_resources :: "string list option"
  h_skill :: "string option"

definition empty_header :: header_data where
  "empty_header = \<lparr>h_version = None, h_context = None, h_goal = None, h_constraints = None,
                     h_resources = None, h_skill = None\<rparr>"

definition after_colon :: "string \<Rightarrow> string" where
  \<comment> \<open>\<open>line.split(':', 1)[1]\<close>, for a line that holds a colon, as every caller's does\<close>
  "after_colon line = drop 1 (dropWhile (\<lambda>c. c \<noteq> CHR '':'') line)"

definition parse_version :: "string \<Rightarrow> string" where
  "parse_version line = strip (last (split_on CHR ''v'' line))"

definition parse_constraints :: "string \<Rightarrow> string list" where
  "parse_constraints line =
     (let constraints_str = strip (after_colon line)
      in filter (\<lambda>c. c \<noteq> []) (map strip (split_on CHR '';'' constraints_str)))"

definition parse_resources :: "string \<Rightarrow> string list" where
  "parse_resources line =
     (let resources_str = strip (after_colon line);
          resources_str = (if startswith resources_str ''['' \<and> endswith resources_str '']''
                           then drop 1 (butlast resources_str) else resources_str)
      in filter (\<lambda>r. r \<noteq> []) (map strip (split_on CHR '','' resources_str)))"

definition parse_skill :: "string \<Rightarrow> string" where
  "parse_skill line = strip (after_colon line)"

definition header_line :: "string \<Rightarrow> header_data \<Rightarrow> header_data" where
  \<comment> \<open>the body of the loop over the stripped, non-blank lines\<close>
  "header_line line result =
     (if startswith line ''!psl'' then result\<lparr>h_version := Some (parse_version line)\<rparr>
      else if startswith line ''context:'' then result\<lparr>h_context := Some (strip (after_colon line))\<rparr>
      else if startswith line ''goal:'' then result\<lparr>h_goal := Some (strip (after_colon line))\<rparr>
      else if startswith line ''constraints:''
        then result\<lparr>h_constraints := Some (parse_constraints line)\<rparr>
      else if startswith line ''resources:''
        then result\<lparr>h_resources := Some (parse_resources line)\<rparr>
      else if startswith line ''skill:'' then result\<lparr>h_skill := Some (parse_skill line)\<rparr>
      else result)"

definition header_parse :: "string \<Rightarrow> header_data" where
  \<comment> \<open>\<open>PSLHeaderParser.parse\<close>\<close>
  "header_parse header_text =
     fold header_line (filter (\<lambda>l. l \<noteq> []) (map strip (split_on newline header_text)))
       empty_header"

section \<open>The full parser (\<open>parser/full_parser.py\<close>)\<close>

text \<open>
  What \<open>_parse_sections\<close> stores under a section name: the list of items of the section,
  or, under \<open>3C\<close>, the three flags.
\<close>

datatype secval = Items "string list" | Flags ThreeC

definition parse_three_c :: "string \<Rightarrow> ThreeC" where
  "parse_three_c text =
     \<lparr>clear = contains (lower text) ''clear: yes'',
      cheap = contains (lower text) ''cheap: yes'',
      safe = contains (lower text) ''safe: yes''\<rparr>"

definition is_section_header :: "string \<Rightarrow> bool" where
  "is_section_header line = (startswith line ''['' \<and> endswith line '']'')"

definition section_name_of :: "string \<Rightarrow> string" where
  \<comment> \<open>\<open>line[1:-1].split(':')[0]\<close>\<close>
  "section_name_of line = takeWhile (\<lambda>c. c \<noteq> CHR '':'') (drop 1 (butlast line))"

definition is_list_item :: "string \<Rightarrow> bool" where
  \<comment> \<open>\<open>line.startswith(('-', '1)', '2)'))\<close>\<close>
  "is_list_item line = (startswith line ''-'' \<or> startswith line ''1)'' \<or> startswith line ''2)'')"

definition strip_marker :: "string \<Rightarrow> string" where
  \<comment> \<open>\<open>line.lstrip('- ').lstrip('1234567890) ')\<close>\<close>
  "strip_marker line = lstrip_chars ''1234567890) '' (lstrip_chars ''- '' line)"

definition truthy :: "string option \<Rightarrow> bool" where
  \<comment> \<open>\<open>if current_section:\<close> is false for \<open>None\<close> and for the empty string\<close>
  "truthy current_section = (current_section \<noteq> None \<and> current_section \<noteq> Some [])"

record scan_state =
  st_sections :: "(string \<times> secval) list"
  current_section :: "string option"
  current_items :: "string list"

definition save_section :: "scan_state \<Rightarrow> (string \<times> secval) list" where
  \<comment> \<open>\<open>sections[current_section] = current_items\<close>\<close>
  "save_section st =
     (case current_section st of
        None \<Rightarrow> st_sections st
      | Some name \<Rightarrow> dict_set name (Items (current_items st)) (st_sections st))"

definition scan_line :: "string \<Rightarrow> string \<Rightarrow> scan_state \<Rightarrow> scan_state \<times> bool" where
  \<comment> \<open>the body of the loop for one line of \<open>text\<close>; the flag says that \<open>break\<close> was taken\<close>
  "scan_line text raw st =
     (let line = strip raw
      in if line = [] then (st, False)
         else if is_section_header line
           then (\<lparr>st_sections = (if truthy (current_section st) then save_section st
                                  else st_sections st),
                  current_section = Some (section_name_of line),
                  current_items = []\<rparr>, False)
         else if truthy (current_section st) \<and> is_list_item line
           then (st\<lparr>current_items := current_items st @ [strip_marker line]\<rparr>, False)
         else if current_section st = Some ''3C'' \<and> CHR '':'' \<in> set line
           then (st\<lparr>st_sections := dict_set ''3C'' (Flags (parse_three_c text)) (st_sections st)\<rparr>,
                 True)
         else (st, False))"

fun scan_lines :: "string \<Rightarrow> string list \<Rightarrow> scan_state \<Rightarrow> scan_state \<times> bool" where
  "scan_lines text [] st = (st, False)"
| "scan_lines text (raw # raws) st =
     (case scan_line text raw st of
        (st', True) \<Rightarrow> (st', True)
      | (st', False) \<Rightarrow> scan_lines text raws st')"

definition initial_state :: scan_state where
  "initial_state = \<lparr>st_sections = [], current_section = None, current_items = []\<rparr>"

definition last_section :: "scan_state \<Rightarrow> (string \<times> secval) list" where
  \<comment> \<open>after the loop: \<open>if current_section and current_items:\<close>\<close>
  "last_section st =
     (if truthy (current_section st) \<and> current_items st \<noteq> [] then save_section st
      else st_sections st)"

definition parse_sections :: "string \<Rightarrow> (string \<times> secval) list" where
  "parse_sections text = last_section (fst (scan_lines text (split_on newline text) initial_state))"

text \<open>
  Modelled from the spec: \<open>_find_header_end\<close>, which \<open>parse\<close> calls and the class
  does not define. The header is all lines before the first line beginning with \<open>[\<close>.
\<close>

definition find_header_end :: "string list \<Rightarrow> nat" where
  "find_header_end lines = length (takeWhile (\<lambda>line. \<not> startswith line ''['') lines)"

text \<open>
  Modelled from the spec: \<open>_parse_header\<close>, which \<open>parse\<close> calls and the class does
  not define. The full parser parses the header by the header parser, which leaves the key
  of a missing field absent.
\<close>

definition parse_header :: "string \<Rightarrow> header_data" where
  "parse_header header_text = header_parse header_text"

datatype py_error = KeyError string | ValidationError

type_synonym PSLDocument_args = "(string, secval, secval, secval) PSLDocument"

text \<open>
  \<open>PSLDocument\<close> is a pydantic model: its constructor validates every argument against
  the annotation of its field and raises \<open>ValidationError\<close> if one does not fit.
  The arguments of \<open>parse\<close> are strings, lists of strings, \<open>None\<close> and \<open>ThreeC\<close>
  values, so that the validation of each field is a check of the shape of its value:
  \<^item> \<open>constraints: List[Constraint]\<close>: the header gives raw constraint strings, and a
    string is no \<open>Constraint\<close>, so that only the empty list passes;
  \<^item> \<open>sections: Dict[str, List[str]]\<close>: every value must be a list of strings, and the
    \<open>ThreeC\<close> value that the section parser stores under \<open>3C\<close> is none;
  \<^item> \<open>three_c: Optional[ThreeC]\<close>: \<open>None\<close> or a \<open>ThreeC\<close> value, not a list of items;
  \<^item> \<open>gloss: Optional[str]\<close>: \<open>None\<close> or a string, not a list of items.
\<close>

fun validate_constraints :: "string list \<Rightarrow> Constraint list option" where
  "validate_constraints [] = Some []"
| "validate_constraints (c # cs) = None"

fun validate_section :: "secval \<Rightarrow> string list option" where
  "validate_section (Items items) = Some items"
| "validate_section (Flags t) = None"

fun validate_sections :: "(string \<times> secval) list \<Rightarrow> (string \<times> string list) list option" where
  "validate_sections [] = Some []"
| "validate_sections ((name, v) # kvs) =
     (case validate_section v of
        None \<Rightarrow> None
      | Some items \<Rightarrow>
          (case validate_sections kvs of
             None \<Rightarrow> None
           | Some rest \<Rightarrow> Some ((name, items) # rest)))"

fun validate_three_c :: "secval option \<Rightarrow> ThreeC option option" where
  "validate_three_c None = Some None"
| "validate_three_c (Some (Flags t)) = Some (Some t)"
| "validate_three_c (Some (Items items)) = None"

fun validate_gloss :: "secval option \<Rightarrow> string option option" where
  "validate_gloss None = Some None"
| "validate_gloss (Some v) = None"

definition PSLDocument_init :: "PSLDocument_args \<Rightarrow> py_error + Document" where
  "PSLDocument_init args =
     (case validate_constraints (constraints args) of
        None \<Rightarrow> Inl ValidationError
      | Some cs \<Rightarrow>
     (case validate_sections (sections args) of
        None \<Rightarrow> Inl ValidationError
      | Some secs \<Rightarrow>
     (case validate_three_c (three_c args) of
        None \<Rightarrow> Inl ValidationError
      | Some t \<Rightarrow>
     (case validate_gloss (gloss args) of
        None \<Rightarrow> Inl ValidationError
      | Some g \<Rightarrow>
          Inr \<lparr>version = version args, doc_context = doc_context args, goal = goal args,
               constraints = cs, resources = resources args, skill = skill args,
               sections = secs, three_c = t, gloss = g\<rparr>))))"

text \<open>
  \<open>header_data['version']\<close> raises \<open>KeyError\<close> for a missing key, \<open>.get\<close> gives
  \<open>None\<close>. The keyword arguments are evaluated in the order they are written, before the
  constructor is called.
\<close>

definition parse :: "string \<Rightarrow> py_error + Document" where
  "parse psl_text =
     (let lines = map rstrip (split_on newline psl_text);
          header_end = find_header_end lines;
          header_text = join_with newline (take header_end lines);
          sections_text = join_with newline (drop header_end lines);
          header_data = parse_header header_text;
          sections_data = parse_sections sections_text
      in case h_version header_data of
           None \<Rightarrow> Inl (KeyError ''version'')
         | Some v \<Rightarrow>
        (case h_context header_data of
           None \<Rightarrow> Inl (KeyError ''context'')
         | Some c \<Rightarrow>
        (case h_goal header_data of
           None \<Rightarrow> Inl (KeyError ''goal'')
         | Some g \<Rightarrow>
        (case h_constraints header_data of
           None \<Rightarrow> Inl (KeyError ''constraints'')
         | Some cs \<Rightarrow>
             PSLDocument_init
               \<lparr>version = v, doc_context = c, goal = g, constraints = cs,
                resources = h_resources header_data, skill = h_skill header_data,
                sections = sections_data,
                three_c = dict_get sections_data ''3C'',
                gloss = dict_get sections_data ''GLOSS''\<rparr>))))"

definition text_of_lines :: "string list \<Rightarrow> string" where
  \<comment> \<open>a concrete input, written line by line\<close>
  "text_of_lines ls = join_with newline ls"

section \<open>The claims in the words of the specification\<close>

text \<open>A constraint counts as satisfied when its name is observed with a number and its
  operator, one of the five, holds of that number.\<close>

definition operator_holds :: "string \<Rightarrow> rat \<Rightarrow> rat \<Rightarrow> bool" where
  "operator_holds op a v =
     (op = ''<='' \<and> a \<le> v \<or> op = ''>='' \<and> a \<ge> v \<or> op = ''<'' \<and> a < v
      \<or> op = ''>'' \<and> a > v \<or> op = ''='' \<and> a = v)"

definition observed_holds :: "(string \<times> pyobj) list \<Rightarrow> Constraint \<Rightarrow> bool" where
  "observed_holds er c =
     (case map_of er (c_name c) of
        Some (PyNum a) \<Rightarrow> operator_holds (c_operator c) a (c_value c)
      | _ \<Rightarrow> False)"

text \<open>A mandatory tag is present when it is a key of \<open>sections\<close>; 3C counts only with a
  structured 3C value.\<close>

definition section_present :: "Document \<Rightarrow> string \<Rightarrow> bool" where
  "section_present document t =
     (if t = ''3C'' then dict_has (sections document) t \<and> three_c document \<noteq> None
      else dict_has (sections document) t)"

text \<open>The number of items of a section, a missing section counting as zero.\<close>

definition item_count :: "Document \<Rightarrow> string \<Rightarrow> nat" where
  "item_count document tag =
     (case map_of (sections document) tag of None \<Rightarrow> 0 | Some its \<Rightarrow> length its)"





text \<open>
  The tag that a raw line opens when it is a section tag line: stripped, it starts with
  \<open>[\<close> and ends with \<open>]\<close>.
\<close>

definition tag_of :: "string \<Rightarrow> string option" where
  "tag_of raw =
     (if is_section_header (strip raw) then Some (section_name_of (strip raw)) else None)"

text \<open>The header of a text: its lines before the first line that begins with \<open>[\<close>.\<close>

definition header_lines :: "string \<Rightarrow> string list" where
  "header_lines psl_text =
     (let lines = map rstrip (split_on newline psl_text)
      in take (find_header_end lines) lines)"

definition has_header_line :: "string \<Rightarrow> string \<Rightarrow> bool" where
  "has_header_line prefix psl_text =
     list_ex (\<lambda>line. startswith (strip line) prefix) (header_lines psl_text)"

text \<open>
  The line that gives a header field: the last line of the header that, stripped, starts
  with the prefix of the field.
\<close>

definition field_line :: "string \<Rightarrow> string \<Rightarrow> string option" where
  "field_line prefix psl_text =
     (case filter (\<lambda>line. startswith line prefix) (map strip (header_lines psl_text)) of
        [] \<Rightarrow> None
      | m # ms \<Rightarrow> Some (last (m # ms)))"

text \<open>The body of a text: its lines from the first line that begins with \<open>[\<close> on.\<close>

definition body_text :: "string \<Rightarrow> string" where
  "body_text psl_text =
     (let lines = map rstrip (split_on newline psl_text)
      in join_with newline (drop (find_header_end lines) lines))"

text \<open>The header gives the four fields that \<open>parse\<close> reads by subscript.\<close>

definition mandatory_header :: "string \<Rightarrow> bool" where
  "mandatory_header psl_text =
     (has_header_line ''!psl'' psl_text \<and> has_header_line ''context:'' psl_text
      \<and> has_header_line ''goal:'' psl_text \<and> has_header_line ''constraints:'' psl_text)"

text \<open>A text with no section: none of its lines is a section tag line.\<close>

definition no_section_line :: "string \<Rightarrow> bool" where
  "no_section_line psl_text = list_all (\<lambda>line. tag_of line = None) (split_on newline psl_text)"

section \<open>Concrete documents\<close>

definition doc_with_sections :: "(string \<times> string list) list \<Rightarrow> Document" where
  "doc_with_sections secs =
     \<lparr>version = ''0.1'', doc_context = ''kitchen'', goal = ''g'', constraints = [],
      resources = None, skill = None, sections = secs, three_c = None, gloss = None\<rparr>"

definition doc_with_three_c :: "ThreeC option \<Rightarrow> Document" where
  \<comment> \<open>a document with no constraints and no sections, for concrete evaluations\<close>
  "doc_with_three_c t =
     \<lparr>version = ''0.1'', doc_context = ''kitchen'', goal = ''g'', constraints = [],
      resources = None, skill = None, sections = [], three_c = t, gloss = None\<rparr>"



definition header_only_text :: string where
  "header_only_text = text_of_lines [''!psl v0.1'', ''context: k'', ''goal: g'', ''constraints:'']"

definition fact_only_text :: string where
  "fact_only_text =
     text_of_lines [''!psl v0.1'', ''context: k'', ''goal: first'', ''goal: g'', ''skill: novice'',
                    ''constraints: ;'', ''[FACT]'', ''- a'']"


definition break_text :: string where
  "break_text = text_of_lines [''[3C]'', ''clear: yes'', ''[HYP]'', ''[GLOSS]'']"

definition empty_sections_text :: string where
  "empty_sections_text =
     text_of_lines [''[FACT]'', ''- a'', ''[HYP]'', ''note'', ''[ROLLBACK]'', ''- b'', ''[SAFETY]'']"

definition doc_with_constraints :: "Constraint list \<Rightarrow> Document" where
  "doc_with_constraints cs =
     \<lparr>version = ''0.1'', doc_context = ''kitchen'', goal = ''g'', constraints = cs,
      resources = None, skill = None, sections = [], three_c = None, gloss = None\<rparr>"

definition time_constraint :: Constraint where
  "time_constraint = \<lparr>c_name = ''time'', c_operator = ''<='', c_value = 10, c_unit = Some ''min''\<rparr>"

definition budget_constraint :: Constraint where
  "budget_constraint = \<lparr>c_name = ''budget'', c_operator = ''<='', c_value = 12, c_unit = Some ''usd''\<rparr>"

definition no_later_issues :: later_rules where
  "no_later_issues =
     \<lparr>l04_unit_normalization = (\<lambda>doc. []), l05_constraints_parsing = (\<lambda>doc. []),
      l06_checklist_constraints_link = (\<lambda>doc. []), l07_three_c_completeness = (\<lambda>doc. []),
      l08_safety_requirements = (\<lambda>doc. []), l09_duplicate_items = (\<lambda>doc. []),
      l10_sentence_clarity = (\<lambda>doc. [])\<rparr>"

definition misordered_doc :: Document where
  "misordered_doc = doc_with_sections [(''HYP'', [''bake 45 min'']), (''FACT'', [''beef'']),
                                        (''SAFETY'', [''dairy''])]"

definition full_doc :: Document where
  "full_doc =
     \<lparr>version = ''0.1'', doc_context = ''kitchen'', goal = ''g'', constraints = [],
      resources = None, skill = None,
      sections = [(''FACT'', [''a'']), (''TECHNIQUE'', [''b'']), (''HYP'', [''c'']),
                  (''ROLLBACK'', [''d'']), (''SAFETY'', [''e'']), (''CHECKLIST'', [''f'']),
                  (''3C'', [])],
      three_c = Some \<lparr>clear = True, cheap = True, safe = True\<rparr>, gloss = None\<rparr>"

section \<open>The 3C score\<close>

text \<open>
  C5 (as stated): the 3C score only takes the values 0.0, 0.33, 0.34, 0.67 and 1.0.
  This fails for a document whose 3C value is cheap and safe but not clear: the code
  returns 0.33 + 0.33 = 0.66.
\<close>

theorem three_c_score_066_counterexample:
  "calculate_three_c_score (doc_with_three_c (Some \<lparr>clear = False, cheap = True, safe = True\<rparr>))
     \<notin> {0, 33 / 100, 34 / 100, 67 / 100, 1}"
  by (simp add: calculate_three_c_score_def doc_with_three_c_def)

text \<open>
  C5 (amended): the 3C score is 0 when the document has no 3C value and otherwise
  0.34 for clear plus 0.33 for cheap plus 0.33 for safe, so that it only takes the values
  0.0, 0.33, 0.34, 0.66, 0.67 and 1.0.
\<close>

theorem three_c_score_values:
  "calculate_three_c_score document =
     (case three_c document of
        None \<Rightarrow> 0
      | Some t \<Rightarrow> 34 / 100 * of_bool (clear t) + 33 / 100 * of_bool (cheap t)
                  + 33 / 100 * of_bool (safe t))
   \<and> calculate_three_c_score document \<in> {0, 33 / 100, 34 / 100, 66 / 100, 67 / 100, 1}"
  by (simp add: calculate_three_c_score_def Let_def split: option.split)

section \<open>Constraint satisfaction rate\<close>

lemma is_constraint_satisfied_holds:
  "is_constraint_satisfied c (PyNum a) = operator_holds (c_operator c) a (c_value c)"
  by (auto simp: is_constraint_satisfied_def operator_holds_def)

lemma csr_loop_count:
  "csr_loop er cs n = n + length (filter (observed_holds er) cs)"
proof (induction cs arbitrary: n)
  case Nil
  show ?case by simp
next
  case (Cons c cs)
  show ?case
  proof (cases "map_of er (c_name c)")
    case None
    then show ?thesis by (simp add: Cons.IH dict_get_def observed_holds_def)
  next
    case (Some v)
    then show ?thesis
      by (cases v)
         (simp_all add: Cons.IH dict_get_def observed_holds_def is_constraint_satisfied_holds,
          simp_all add: is_constraint_satisfied_def)
  qed
qed

text \<open>
  C3: CSR is 1 when there are no constraints, whatever the execution result; 0 when there
  are constraints and no execution result; otherwise the number of constraints whose
  operator holds of the observed value, divided by the number of all constraints, so that
  a constraint whose name is not observed counts below the line only.
\<close>

theorem csr_value:
  "calculate_csr document execution_result =
     (if constraints document = [] then 1
      else (case execution_result of
              None \<Rightarrow> 0
            | Some er \<Rightarrow>
                of_nat (length (filter (observed_holds er) (constraints document)))
                / of_nat (length (constraints document))))"
proof -
  have "filter (observed_holds []) cs = []" for cs
    by (induction cs) (simp_all add: observed_holds_def)
  then show ?thesis
    by (simp add: calculate_csr_def csr_loop_count split: option.split)
qed

theorem csr_value_witness:
  "calculate_csr (doc_with_constraints [time_constraint, budget_constraint])
     (Some [(''time'', PyNum 5)]) = 1 / 2
   \<and> calculate_csr (doc_with_constraints [time_constraint]) (Some [(''time'', PyNum 15)]) = 0
   \<and> calculate_csr (doc_with_constraints [time_constraint]) None = 0
   \<and> calculate_csr (doc_with_constraints []) None = 1"
  using csr_value [of "doc_with_constraints [time_constraint, budget_constraint]"
                      "Some [(''time'', PyNum 5)]"]
        csr_value [of "doc_with_constraints [time_constraint]" "Some [(''time'', PyNum 15)]"]
        csr_value [of "doc_with_constraints [time_constraint]" None]
        csr_value [of "doc_with_constraints []" None]
  by (simp add: doc_with_constraints_def time_constraint_def budget_constraint_def
      observed_holds_def operator_holds_def)

section \<open>Coverage\<close>

lemma coverage_step_present:
  "coverage_step document t n = (if section_present document t then n + 1 else n)"
  by (simp add: coverage_step_def section_present_def)

lemma fold_count:
  "fold (\<lambda>t n. if P t then n + 1 else n) ts (n::nat) = n + length (filter P ts)"
  by (induction ts arbitrary: n) simp_all

lemma coverage_count:
  "fold (coverage_step document) mandatory_sections 0
     = card {t \<in> set mandatory_sections. section_present document t}"
proof -
  have d: "distinct mandatory_sections"
    by (simp add: mandatory_sections_def)
  have "fold (coverage_step document) mandatory_sections 0
          = length (filter (section_present document) mandatory_sections)"
    using fold_count [of "section_present document" mandatory_sections 0]
    by (simp add: coverage_step_present [abs_def])
  also have "\<dots> = card (set (filter (section_present document) mandatory_sections))"
    using d by (simp add: distinct_card del: set_filter)
  finally show ?thesis by simp
qed

lemma dict_keys_dict_set:
  "set (dict_keys (dict_set k v d)) = insert k (set (dict_keys d))"
  by (induction d) (force simp: dict_keys_def)+

lemma section_present_mono:
  "section_present document t \<Longrightarrow>
   section_present (document\<lparr>sections := dict_set k v (sections document)\<rparr>) t"
  by (auto simp: section_present_def dict_has_def dict_keys_dict_set)

text \<open>
  C9: the coverage is the fraction of the seven mandatory tags that are present (3C only
  with a structured 3C value), and adding a missing mandatory section to the sections,
  with nothing removed, never lowers it.
\<close>

theorem psl_coverage_fraction_monotonic:
  "calculate_psl_coverage document
     = of_nat (card {t \<in> set mandatory_sections. section_present document t}) / 7
   \<and> (tag \<in> set mandatory_sections \<and> \<not> dict_has (sections document) tag \<longrightarrow>
        calculate_psl_coverage document
          \<le> calculate_psl_coverage
               (document\<lparr>sections := dict_set tag items (sections document)\<rparr>))"
proof -
  let ?d' = "document\<lparr>sections := dict_set tag items (sections document)\<rparr>"
  have len: "length mandatory_sections = 7"
    by (simp add: mandatory_sections_def)
  have "{t \<in> set mandatory_sections. section_present document t}
          \<subseteq> {t \<in> set mandatory_sections. section_present ?d' t}"
    using section_present_mono by blast
  then have "card {t \<in> set mandatory_sections. section_present document t}
          \<le> card {t \<in> set mandatory_sections. section_present ?d' t}"
    by (intro card_mono) simp_all
  then show ?thesis
    by (simp add: calculate_psl_coverage_def coverage_count len divide_right_mono)
qed

theorem psl_coverage_witness:
  "''HYP'' \<in> set mandatory_sections
   \<and> \<not> dict_has (sections (doc_with_sections [(''FACT'', [''a''])])) ''HYP''
   \<and> calculate_psl_coverage (doc_with_sections [(''FACT'', [''a''])]) = 1 / 7
   \<and> calculate_psl_coverage
        ((doc_with_sections [(''FACT'', [''a''])])
           \<lparr>sections := dict_set ''HYP'' [''h''] (sections (doc_with_sections [(''FACT'', [''a''])]))\<rparr>)
       = 2 / 7
   \<and> card {t \<in> set mandatory_sections. section_present full_doc t} = 7
   \<and> calculate_psl_coverage full_doc = 1"
proof -
  have m: "''HYP'' \<in> set mandatory_sections"
    by (simp add: mandatory_sections_def)
  have h: "\<not> dict_has (sections (doc_with_sections [(''FACT'', [''a''])])) ''HYP''"
    by (simp add: dict_has_def dict_keys_def doc_with_sections_def)
  have a: "calculate_psl_coverage (doc_with_sections [(''FACT'', [''a''])]) = 1 / 7"
    by (simp add: calculate_psl_coverage_def mandatory_sections_def coverage_step_def
        dict_has_def dict_keys_def doc_with_sections_def)
  have b: "calculate_psl_coverage
        ((doc_with_sections [(''FACT'', [''a''])])
           \<lparr>sections := dict_set ''HYP'' [''h''] (sections (doc_with_sections [(''FACT'', [''a''])]))\<rparr>)
       = 2 / 7"
    by (simp add: calculate_psl_coverage_def mandatory_sections_def coverage_step_def
        dict_has_def dict_keys_def doc_with_sections_def)
  have f: "calculate_psl_coverage full_doc = 1"
    by (simp add: calculate_psl_coverage_def mandatory_sections_def coverage_step_def
        dict_has_def dict_keys_def full_doc_def)
  from psl_coverage_fraction_monotonic [of "doc_with_sections [(''FACT'', [''a''])]" "''HYP''"
                                           "[''h'']"]
       psl_coverage_fraction_monotonic [of full_doc, THEN conjunct1] m h a b f
  show ?thesis
    by simp
qed

section \<open>Rule L-02\<close>

text \<open>
  C8: rule L-02 appends exactly one issue of level error, whose message gives both counts,
  when the number of HYP items differs from the number of ROLLBACK items (a missing section
  counting as zero), and appends nothing when the counts are equal.
\<close>

theorem l02_one_error_iff_counts_differ:
  "(item_count doc ''HYP'' \<noteq> item_count doc ''ROLLBACK'' \<longrightarrow>
      validate_l02_hyp_rollback_pairing doc issues
        = issues @ [\<lparr>rule = ''L-02'', level = ''error'',
                        message = ''HYP/ROLLBACK count mismatch. HYP: ''
                                  @ str_nat (item_count doc ''HYP'')
                                  @ '', ROLLBACK: '' @ str_nat (item_count doc ''ROLLBACK'')\<rparr>])
   \<and> (item_count doc ''HYP'' = item_count doc ''ROLLBACK'' \<longrightarrow>
      validate_l02_hyp_rollback_pairing doc issues = issues)"
  by (simp add: validate_l02_hyp_rollback_pairing_def item_count_def dict_get_default_def
      split: option.split)

theorem l02_witness:
  "item_count (doc_with_sections [(''HYP'', [''a'', ''b''])]) ''HYP'' = 2
   \<and> item_count (doc_with_sections [(''HYP'', [''a'', ''b''])]) ''ROLLBACK'' = 0
   \<and> validate_l02_hyp_rollback_pairing (doc_with_sections [(''HYP'', [''a'', ''b''])]) []
       = [\<lparr>rule = ''L-02'', level = ''error'',
            message = ''HYP/ROLLBACK count mismatch. HYP: 2, ROLLBACK: 0''\<rparr>]
   \<and> item_count (doc_with_sections [(''HYP'', [''a'']), (''ROLLBACK'', [''b''])]) ''HYP''
       = item_count (doc_with_sections [(''HYP'', [''a'']), (''ROLLBACK'', [''b''])]) ''ROLLBACK''
   \<and> validate_l02_hyp_rollback_pairing
         (doc_with_sections [(''HYP'', [''a'']), (''ROLLBACK'', [''b''])]) [] = []"
proof -
  have h: "item_count (doc_with_sections [(''HYP'', [''a'', ''b''])]) ''HYP'' = 2"
    by (simp add: item_count_def doc_with_sections_def)
  have r: "item_count (doc_with_sections [(''HYP'', [''a'', ''b''])]) ''ROLLBACK'' = 0"
    by (simp add: item_count_def doc_with_sections_def)
  have e: "item_count (doc_with_sections [(''HYP'', [''a'']), (''ROLLBACK'', [''b''])]) ''HYP''
       = item_count (doc_with_sections [(''HYP'', [''a'']), (''ROLLBACK'', [''b''])]) ''ROLLBACK''"
    by (simp add: item_count_def doc_with_sections_def)
  have s2: "str_nat 2 = ''2''" and s0: "str_nat 0 = ''0''"
    by code_simp+
  from l02_one_error_iff_counts_differ [of "doc_with_sections [(''HYP'', [''a'', ''b''])]" "[]"]
       l02_one_error_iff_counts_differ
         [of "doc_with_sections [(''HYP'', [''a'']), (''ROLLBACK'', [''b''])]" "[]"]
       h r e s2 s0
  show ?thesis by simp
qed

section \<open>The validator runs every rule\<close>

lemma l01_appends: "validate_l01_section_order doc issues = issues @ validate_l01_section_order doc []"
  by (simp add: validate_l01_section_order_def Let_def)

lemma l02_appends:
  "validate_l02_hyp_rollback_pairing doc issues = issues @ validate_l02_hyp_rollback_pairing doc []"
  by (simp add: validate_l02_hyp_rollback_pairing_def Let_def)

lemma l03_item_appends: "l03_item n item issues = issues @ l03_item n item []"
  by (simp add: l03_item_def)

lemma l03_items_append:
  "fold (l03_item n) items issues = issues @ fold (l03_item n) items []"
proof (induction items arbitrary: issues)
  case Nil
  show ?case by simp
next
  case (Cons item items)
  have "fold (l03_item n) (item # items) issues = fold (l03_item n) items (l03_item n item issues)"
    by simp
  also have "\<dots> = l03_item n item issues @ fold (l03_item n) items []"
    by (rule Cons.IH)
  also have "\<dots> = issues @ l03_item n item [] @ fold (l03_item n) items []"
    using l03_item_appends [of n item issues] by simp
  also have "l03_item n item [] @ fold (l03_item n) items [] = fold (l03_item n) items (l03_item n item [])"
    by (rule Cons.IH [symmetric])
  finally show ?case by simp
qed

lemma l03_section_appends: "l03_section sec issues = issues @ l03_section sec []"
proof (cases sec)
  case (Pair n items)
  then show ?thesis
    using l03_items_append [of n items issues] by (simp add: l03_section_def)
qed

lemma l03_appends:
  "validate_l03_numbers_outside_fact doc issues = issues @ validate_l03_numbers_outside_fact doc []"
proof -
  have "fold l03_section secs issues = issues @ fold l03_section secs []" for secs
  proof (induction secs arbitrary: issues)
    case Nil
    show ?case by simp
  next
    case (Cons sec secs)
    have "fold l03_section (sec # secs) issues = l03_section sec issues @ fold l03_section secs []"
      using Cons.IH [of "l03_section sec issues"] by simp
    also have "\<dots> = issues @ l03_section sec [] @ fold l03_section secs []"
      using l03_section_appends [of sec issues] by simp
    also have "l03_section sec [] @ fold l03_section secs [] = fold l03_section (sec # secs) []"
      using Cons.IH [of "l03_section sec []"] by simp
    finally show ?case .
  qed
  then show ?thesis by (simp add: validate_l03_numbers_outside_fact_def)
qed

text \<open>
  C2: for every document, \<open>validate\<close> runs the ten checks L-01 to L-10 in order; each
  appends its own issues, zero or more, to the ones collected so far, none stops or changes
  another, and the result is the sequence of all issues in the order of the checks.
\<close>

theorem validate_runs_all_ten:
  "validate later document self_issues =
     validate_l01_section_order document []
     @ validate_l02_hyp_rollback_pairing document []
     @ validate_l03_numbers_outside_fact document []
     @ l04_unit_normalization later document
     @ l05_constraints_parsing later document
     @ l06_checklist_constraints_link later document
     @ l07_three_c_completeness later document
     @ l08_safety_requirements later document
     @ l09_duplicate_items later document
     @ l10_sentence_clarity later document
   \<and> validate_l01_section_order document issues
       = issues @ validate_l01_section_order document []
   \<and> validate_l02_hyp_rollback_pairing document issues
       = issues @ validate_l02_hyp_rollback_pairing document []
   \<and> validate_l03_numbers_outside_fact document issues
       = issues @ validate_l03_numbers_outside_fact document []
   \<and> validate_later check document issues = issues @ validate_later check document []"
proof -
  have "validate later document self_issues =
     validate_l01_section_order document []
     @ validate_l02_hyp_rollback_pairing document []
     @ validate_l03_numbers_outside_fact document []
     @ l04_unit_normalization later document
     @ l05_constraints_parsing later document
     @ l06_checklist_constraints_link later document
     @ l07_three_c_completeness later document
     @ l08_safety_requirements later document
     @ l09_duplicate_items later document
     @ l10_sentence_clarity later document"
    unfolding validate_def Let_def validate_later_def
    using l02_appends [of document "validate_l01_section_order document []"]
          l03_appends [of document "validate_l02_hyp_rollback_pairing document
                                      (validate_l01_section_order document [])"]
    by simp
  moreover have "validate_later check document issues = issues @ validate_later check document []"
    by (simp add: validate_later_def)
  ultimately show ?thesis
    using l01_appends [of document issues] l02_appends [of document issues]
          l03_appends [of document issues]
    by simp
qed

theorem validate_witness:
  "map rule (validate no_later_issues misordered_doc []) = [''L-01'', ''L-02'', ''L-03'']
   \<and> map level (validate no_later_issues misordered_doc []) = [''error'', ''error'', ''warning'']"
proof -
  have a: "map rule (validate_l01_section_order misordered_doc []) = [''L-01'']"
          "map level (validate_l01_section_order misordered_doc []) = [''error'']"
    by (simp_all add: validate_l01_section_order_def misordered_doc_def doc_with_sections_def
        dict_keys_def expected_order_def)
  have b: "map rule (validate_l02_hyp_rollback_pairing misordered_doc []) = [''L-02'']"
          "map level (validate_l02_hyp_rollback_pairing misordered_doc []) = [''error'']"
    by (simp_all add: validate_l02_hyp_rollback_pairing_def misordered_doc_def
        doc_with_sections_def dict_get_default_def)
  have m: "re_search l03_number_pattern ''bake 45 min''"
    by code_simp
  have d: "\<not> re_search l03_number_pattern ''dairy''"
    by code_simp
  have c: "map rule (validate_l03_numbers_outside_fact misordered_doc []) = [''L-03'']"
          "map level (validate_l03_numbers_outside_fact misordered_doc []) = [''warning'']"
    by (simp_all add: validate_l03_numbers_outside_fact_def l03_section_def l03_item_def
        misordered_doc_def doc_with_sections_def m d)
  from validate_runs_all_ten [of no_later_issues misordered_doc "[]", THEN conjunct1] a b c
  show ?thesis
    by (simp add: no_later_issues_def)
qed

section \<open>Rounding\<close>













section \<open>The HRR in floats and in exact arithmetic\<close>
























section \<open>Hallucination rejection rate\<close>









section \<open>Lines of a text\<close>

lemma rstrip_Cons:
  "rstrip (c # cs) = (if rstrip cs = [] \<and> is_space c then [] else c # rstrip cs)"
  by (auto simp: rstrip_def dropWhile_append)

lemma lstrip_rstrip: "lstrip (rstrip s) = rstrip (lstrip s)"
proof (induction s)
  case Nil
  show ?case by (simp add: lstrip_def rstrip_def)
next
  case (Cons c cs)
  show ?case
  proof (cases "is_space c")
    case True
    then have l: "lstrip (c # cs) = lstrip cs"
      by (simp add: lstrip_def)
    show ?thesis
    proof (cases "rstrip cs = []")
      case True
      with \<open>is_space c\<close> have "lstrip (rstrip (c # cs)) = []"
        by (simp add: rstrip_Cons lstrip_def)
      moreover from True Cons.IH have "rstrip (lstrip cs) = []"
        by (simp add: lstrip_def)
      ultimately show ?thesis using l by simp
    next
      case False
      with \<open>is_space c\<close> have "lstrip (rstrip (c # cs)) = lstrip (rstrip cs)"
        by (simp add: rstrip_Cons lstrip_def)
      then show ?thesis using l Cons.IH by simp
    qed
  next
    case False
    then show ?thesis by (simp add: rstrip_Cons lstrip_def)
  qed
qed

lemma rstrip_idem: "rstrip (rstrip s) = rstrip s"
proof -
  have "dropWhile is_space (dropWhile is_space xs) = dropWhile is_space xs" for xs
    by (induction xs) simp_all
  then show ?thesis by (simp add: rstrip_def)
qed

lemma strip_rstrip: "strip (rstrip s) = strip s"
  by (simp add: strip_def lstrip_rstrip rstrip_idem)

lemma strip_Nil: "strip [] = []"
  by (simp add: strip_def lstrip_def rstrip_def)

lemma split_on_no_sep: "l \<in> set (split_on sep s) \<Longrightarrow> sep \<notin> set l"
  by (induction s arbitrary: l) (auto split: list.splits if_splits)

lemma split_on_no_sep_id: "sep \<notin> set w \<Longrightarrow> split_on sep w = [w]"
  by (induction w) auto

lemma split_on_append:
  "sep \<notin> set w \<Longrightarrow> split_on sep (w @ sep # s) = w # split_on sep s"
  by (induction w) auto

lemma split_join:
  "ls \<noteq> [] \<Longrightarrow> \<forall>l\<in>set ls. sep \<notin> set l \<Longrightarrow> split_on sep (join_with sep ls) = ls"
proof (induction ls rule: join_with.induct)
  case (1 sep)
  then show ?case by simp
next
  case (2 sep w)
  then show ?case by (simp add: split_on_no_sep_id)
next
  case (3 sep w v ws)
  then show ?case by (simp add: split_on_append)
qed

lemma rstrip_no_sep: "sep \<notin> set l \<Longrightarrow> sep \<notin> set (rstrip l)"
  using set_dropWhileD [of sep is_space "rev l"] by (auto simp: rstrip_def)

lemma split_join_cases:
  assumes "\<forall>l\<in>set ls. sep \<notin> set l"
  shows "split_on sep (join_with sep ls) = (if ls = [] then [[]] else ls)"
  using assms split_join [of ls sep] by simp

text \<open>The lines that a parser reads back from a joined part of the rstripped lines.\<close>

lemma lines_of_part:
  assumes "set part \<subseteq> set (map rstrip (split_on newline psl_text))"
  shows "split_on newline (join_with newline part) = (if part = [] then [[]] else part)"
proof -
  have "\<forall>l\<in>set part. newline \<notin> set l"
    using assms split_on_no_sep rstrip_no_sep by fastforce
  then show ?thesis by (rule split_join_cases)
qed

section \<open>Scanning the sections\<close>

lemma tag_of_Nil: "tag_of [] = None"
  by (simp add: tag_of_def strip_Nil is_section_header_def startswith_def)

lemma tag_of_rstrip: "tag_of (rstrip l) = tag_of l"
  by (simp add: tag_of_def strip_rstrip)

lemma scan_line_no_tag_no_section:
  "current_section st = None \<Longrightarrow> tag_of raw = None \<Longrightarrow> scan_line text raw st = (st, False)"
  by (simp add: scan_line_def tag_of_def truthy_def Let_def split: if_splits)

lemma scan_lines_no_tag:
  "current_section st = None \<Longrightarrow> \<forall>l\<in>set ls. tag_of l = None \<Longrightarrow>
   scan_lines text ls st = (st, False)"
  by (induction ls) (simp_all add: scan_line_no_tag_no_section)

lemma parse_sections_no_tag:
  assumes "\<forall>l\<in>set (split_on newline text). tag_of l = None"
  shows "parse_sections text = []"
  using scan_lines_no_tag [OF _ assms, of initial_state "text"]
  by (simp add: parse_sections_def initial_state_def last_section_def truthy_def)

lemma scan_lines_append:
  "scan_lines text (xs @ ys) st =
     (case scan_lines text xs st of
        (st', True) \<Rightarrow> (st', True)
      | (st', False) \<Rightarrow> scan_lines text ys st')"
  by (induction xs arbitrary: st) (auto split: prod.splits bool.splits)

lemma map_of_dict_set:
  "map_of (dict_set k v d) k' = (if k' = k then Some v else map_of d k')"
  by (induction d) auto

lemma scan_line_tag:
  "tag_of raw = Some T \<Longrightarrow>
   scan_line text raw st =
     (\<lparr>st_sections = (if truthy (current_section st) then save_section st else st_sections st),
       current_section = Some T, current_items = []\<rparr>, False)"
  by (auto simp: scan_line_def tag_of_def Let_def is_section_header_def startswith_def
      split: if_splits)

lemma scan_line_ignored:
  "tag_of raw = None \<Longrightarrow> \<not> is_list_item (strip raw) \<Longrightarrow>
   current_section st \<noteq> Some ''3C'' \<or> CHR '':'' \<notin> set (strip raw) \<Longrightarrow>
   scan_line text raw st = (st, False)"
  by (auto simp: scan_line_def tag_of_def Let_def split: if_splits)

lemma scan_line_other_key:
  assumes "current_section st \<noteq> Some k" and "tag_of raw \<noteq> Some k"
  shows "map_of (st_sections (fst (scan_line text raw st))) k = map_of (st_sections st) k
         \<and> current_section (fst (scan_line text raw st)) \<noteq> Some k"
  using assms
  by (auto simp: scan_line_def tag_of_def Let_def save_section_def map_of_dict_set
      split: if_splits option.splits)

lemma scan_lines_other_key:
  "current_section st \<noteq> Some k \<Longrightarrow> \<forall>l\<in>set ls. tag_of l \<noteq> Some k \<Longrightarrow>
   map_of (st_sections (fst (scan_lines text ls st))) k = map_of (st_sections st) k
   \<and> current_section (fst (scan_lines text ls st)) \<noteq> Some k"
proof (induction ls arbitrary: st)
  case Nil
  then show ?case by simp
next
  case (Cons raw ls)
  obtain st' b where step: "scan_line text raw st = (st', b)"
    by (cases "scan_line text raw st")
  from Cons.prems scan_line_other_key [of st k raw "text"] step
  have keep: "map_of (st_sections st') k = map_of (st_sections st) k"
    and cur: "current_section st' \<noteq> Some k"
    by simp_all
  show ?case
  proof (cases b)
    case True
    with step keep cur show ?thesis by simp
  next
    case False
    with step keep cur Cons.IH [of st'] Cons.prems show ?thesis by simp
  qed
qed

lemma scan_line_no_break:
  "current_section st \<noteq> Some ''3C'' \<Longrightarrow> tag_of raw \<noteq> Some ''3C'' \<Longrightarrow>
   snd (scan_line text raw st) = False
   \<and> current_section (fst (scan_line text raw st)) \<noteq> Some ''3C''"
  by (auto simp: scan_line_def tag_of_def Let_def split: if_splits)

lemma scan_lines_no_break:
  "current_section st \<noteq> Some ''3C'' \<Longrightarrow> \<forall>l\<in>set ls. tag_of l \<noteq> Some ''3C'' \<Longrightarrow>
   snd (scan_lines text ls st) = False
   \<and> current_section (fst (scan_lines text ls st)) \<noteq> Some ''3C''"
proof (induction ls arbitrary: st)
  case Nil
  then show ?case by simp
next
  case (Cons raw ls)
  obtain st' b where step: "scan_line text raw st = (st', b)"
    by (cases "scan_line text raw st")
  from Cons.prems scan_line_no_break [of st raw "text"] step
  have "b = False" and "current_section st' \<noteq> Some ''3C''"
    by simp_all
  with step Cons.IH [of st'] Cons.prems show ?case by simp
qed

lemma scan_lines_ignored:
  "\<forall>m\<in>set mid. tag_of m = None \<and> \<not> is_list_item (strip m)
       \<and> (current_section st \<noteq> Some ''3C'' \<or> CHR '':'' \<notin> set (strip m)) \<Longrightarrow>
   scan_lines text mid st = (st, False)"
  by (induction mid) (simp_all add: scan_line_ignored)


lemma last_section_other_key:
  "current_section st \<noteq> Some k \<Longrightarrow> map_of (last_section st) k = map_of (st_sections st) k"
  by (auto simp: last_section_def save_section_def map_of_dict_set split: option.splits)

lemma dict_has_map_of: "dict_has d k = (map_of d k \<noteq> None)"
  by (simp add: dict_has_def dict_keys_def map_of_eq_None_iff)

lemma scan_until_tag:
  assumes pre: "\<forall>p\<in>set pre. tag_of p \<noteq> Some ''3C''" and t: "tag_of t = Some T"
  obtains secs where
    "scan_lines text (pre @ [t]) initial_state
       = (\<lparr>st_sections = secs, current_section = Some T, current_items = []\<rparr>, False)"
    and "(\<forall>p\<in>set pre. tag_of p \<noteq> Some T) \<Longrightarrow> map_of secs T = None"
proof -
  obtain s1 b1 where s1: "scan_lines text pre initial_state = (s1, b1)"
    by (cases "scan_lines text pre initial_state")
  have init: "current_section initial_state = None"
    by (simp add: initial_state_def)
  from scan_lines_no_break [of initial_state pre "text"] pre s1 init
  have b1: "b1 = False"
    by simp
  let ?secs = "if truthy (current_section s1) then save_section s1 else st_sections s1"
  have run: "scan_lines text (pre @ [t]) initial_state
       = (\<lparr>st_sections = ?secs, current_section = Some T, current_items = []\<rparr>, False)"
    using s1 b1 scan_line_tag [OF t, of "text" s1] by (simp add: scan_lines_append)
  have none: "map_of ?secs T = None" if "\<forall>p\<in>set pre. tag_of p \<noteq> Some T"
  proof -
    from scan_lines_other_key [of initial_state T pre "text"] that s1 init
    have "map_of (st_sections s1) T = None" and "current_section s1 \<noteq> Some T"
      by (simp_all add: initial_state_def)
    then show ?thesis
      by (auto simp: save_section_def map_of_dict_set split: option.splits)
  qed
  from run none that show thesis
    by blast
qed

section \<open>The header fields that \<open>parse\<close> reads\<close>

lemma startswith_hd: "startswith l (c # p) \<Longrightarrow> l \<noteq> [] \<and> hd l = c"
  by (cases l) (auto simp: startswith_def)

lemma startswith_take:
  assumes "startswith l p" and "n \<le> length p"
  shows "take n l = take n p"
proof -
  have "take n l = take n (take (length p) l)"
    using assms(2) by (simp add: min_def)
  also have "\<dots> = take n p"
    using assms(1) by (simp add: startswith_def)
  finally show ?thesis .
qed

text \<open>The six prefixes exclude each other.\<close>

lemma prefixes_apart:
  "startswith l ''!psl'' \<Longrightarrow>
     \<not> startswith l ''context:'' \<and> \<not> startswith l ''goal:'' \<and> \<not> startswith l ''constraints:''
     \<and> \<not> startswith l ''resources:'' \<and> \<not> startswith l ''skill:''"
  "startswith l ''context:'' \<Longrightarrow>
     \<not> startswith l ''goal:'' \<and> \<not> startswith l ''constraints:''
     \<and> \<not> startswith l ''resources:'' \<and> \<not> startswith l ''skill:''"
  "startswith l ''goal:'' \<Longrightarrow>
     \<not> startswith l ''constraints:'' \<and> \<not> startswith l ''resources:'' \<and> \<not> startswith l ''skill:''"
  "startswith l ''constraints:'' \<Longrightarrow> \<not> startswith l ''resources:'' \<and> \<not> startswith l ''skill:''"
  "startswith l ''resources:'' \<Longrightarrow> \<not> startswith l ''skill:''"
proof -
  have four: "startswith l ''context:'' \<Longrightarrow> take 4 l = ''cont''"
    "startswith l ''constraints:'' \<Longrightarrow> take 4 l = ''cons''"
    using startswith_take [of l "''context:''" 4] startswith_take [of l "''constraints:''" 4]
    by simp_all
  note hd = startswith_hd [of l "CHR ''!''" "''psl''"] startswith_hd [of l "CHR ''c''" "''ontext:''"]
    startswith_hd [of l "CHR ''g''" "''oal:''"] startswith_hd [of l "CHR ''c''" "''onstraints:''"]
    startswith_hd [of l "CHR ''r''" "''esources:''"] startswith_hd [of l "CHR ''s''" "''kill:''"]
  show "startswith l ''!psl'' \<Longrightarrow>
     \<not> startswith l ''context:'' \<and> \<not> startswith l ''goal:'' \<and> \<not> startswith l ''constraints:''
     \<and> \<not> startswith l ''resources:'' \<and> \<not> startswith l ''skill:''"
    using hd by auto
  show "startswith l ''context:'' \<Longrightarrow>
     \<not> startswith l ''goal:'' \<and> \<not> startswith l ''constraints:''
     \<and> \<not> startswith l ''resources:'' \<and> \<not> startswith l ''skill:''"
    using hd four by auto
  show "startswith l ''goal:'' \<Longrightarrow>
     \<not> startswith l ''constraints:'' \<and> \<not> startswith l ''resources:'' \<and> \<not> startswith l ''skill:''"
    using hd by auto
  show "startswith l ''constraints:'' \<Longrightarrow> \<not> startswith l ''resources:'' \<and> \<not> startswith l ''skill:''"
    using hd by auto
  show "startswith l ''resources:'' \<Longrightarrow> \<not> startswith l ''skill:''"
    using hd by auto
qed

lemma version_step:
  "h_version (header_line l r)
     = (if startswith l ''!psl'' then Some (parse_version l) else h_version r)"
  by (simp add: header_line_def)

lemma context_step:
  "h_context (header_line l r)
     = (if startswith l ''context:'' then Some (strip (after_colon l)) else h_context r)"
  using prefixes_apart(1) [of l] by (simp add: header_line_def)

lemma goal_step:
  "h_goal (header_line l r)
     = (if startswith l ''goal:'' then Some (strip (after_colon l)) else h_goal r)"
  using prefixes_apart(1,2) [of l] by (simp add: header_line_def)

lemma constraints_step:
  "h_constraints (header_line l r)
     = (if startswith l ''constraints:'' then Some (parse_constraints l) else h_constraints r)"
  using prefixes_apart(1,2,3) [of l] by (simp add: header_line_def)

lemma resources_step:
  "h_resources (header_line l r)
     = (if startswith l ''resources:'' then Some (parse_resources l) else h_resources r)"
  using prefixes_apart(1,2,3,4) [of l] by (simp add: header_line_def)

lemma skill_step:
  "h_skill (header_line l r)
     = (if startswith l ''skill:'' then Some (parse_skill l) else h_skill r)"
  using prefixes_apart [of l] by (simp add: header_line_def)

text \<open>The last line of a field wins.\<close>

lemma fold_header_last:
  assumes "\<And>l r. f (header_line l r) = (if P l then Some (g l) else f r)"
  shows "f (fold header_line ls r)
           = (case filter P ls of [] \<Rightarrow> f r | m # ms \<Rightarrow> Some (g (last (m # ms))))"
proof (induction ls arbitrary: r)
  case Nil
  show ?case by simp
next
  case (Cons l ls)
  show ?case
    using Cons.IH [of "header_line l r"] assms [of l r]
    by (simp split: list.splits)
qed

lemma header_lines_read_back:
  "filter (\<lambda>l. l \<noteq> []) (map strip (split_on newline (join_with newline (header_lines psl_text))))
     = filter (\<lambda>l. l \<noteq> []) (map strip (header_lines psl_text))"
proof -
  have "set (header_lines psl_text) \<subseteq> set (map rstrip (split_on newline psl_text))"
    unfolding header_lines_def Let_def by (rule set_take_subset)
  then show ?thesis
    by (simp add: lines_of_part strip_Nil)
qed

lemma header_field_value:
  assumes "\<And>l r. f (header_line l r) = (if startswith l p then Some (g l) else f r)"
    and "f empty_header = None" and "p \<noteq> []"
  shows "f (parse_header (join_with newline (header_lines psl_text)))
           = map_option g (field_line p psl_text)"
proof -
  have ne: "l \<noteq> []" if "startswith l p" for l
    using assms(3) that by (auto simp: startswith_def)
  have "filter (\<lambda>l. startswith l p) (filter (\<lambda>l. l \<noteq> []) ls)
          = filter (\<lambda>l. startswith l p) ls" for ls
    using ne by (induction ls) auto
  then show ?thesis
    unfolding parse_header_def header_parse_def header_lines_read_back field_line_def
    using fold_header_last [of f "\<lambda>l. startswith l p" g, OF assms(1)] assms(2)
    by (simp split: list.splits)
qed

lemma has_header_line_field:
  "has_header_line p psl_text = (field_line p psl_text \<noteq> None)"
proof -
  have "has_header_line p psl_text
          = (filter (\<lambda>l. startswith l p) (map strip (header_lines psl_text)) \<noteq> [])"
    by (auto simp: has_header_line_def list_ex_iff filter_empty_conv)
  then show ?thesis
    by (simp add: field_line_def split: list.splits)
qed

lemma parse_unfold:
  "parse psl_text =
     (let header_data = parse_header (join_with newline (header_lines psl_text));
          sections_data = parse_sections (body_text psl_text)
      in case h_version header_data of
           None \<Rightarrow> Inl (KeyError ''version'')
         | Some v \<Rightarrow>
        (case h_context header_data of
           None \<Rightarrow> Inl (KeyError ''context'')
         | Some c \<Rightarrow>
        (case h_goal header_data of
           None \<Rightarrow> Inl (KeyError ''goal'')
         | Some g \<Rightarrow>
        (case h_constraints header_data of
           None \<Rightarrow> Inl (KeyError ''constraints'')
         | Some cs \<Rightarrow>
             PSLDocument_init
               \<lparr>version = v, doc_context = c, goal = g, constraints = cs,
                resources = h_resources header_data, skill = h_skill header_data,
                sections = sections_data,
                three_c = dict_get sections_data ''3C'',
                gloss = dict_get sections_data ''GLOSS''\<rparr>))))"
  by (simp add: parse_def header_lines_def body_text_def Let_def)

lemma init_no_key_error: "PSLDocument_init args \<noteq> Inl (KeyError k)"
  by (simp add: PSLDocument_init_def split: option.splits)

lemma validate_sections_Some:
  "validate_sections secs = Some vs \<Longrightarrow> map (\<lambda>(name, items). (name, Items items)) vs = secs"
proof (induction secs arbitrary: vs)
  case Nil
  then show ?case by simp
next
  case (Cons kv secs)
  obtain name v where kv: "kv = (name, v)"
    by (cases kv)
  from Cons.prems kv obtain items rest where "v = Items items"
    and "validate_sections secs = Some rest" and "vs = (name, items) # rest"
    by (cases v) (auto split: option.splits)
  with Cons.IH [of rest] kv show ?case by simp
qed

lemma init_fields:
  assumes "PSLDocument_init args = Inr d"
  shows "version d = version args \<and> doc_context d = doc_context args \<and> goal d = goal args
         \<and> resources d = resources args \<and> skill d = skill args
         \<and> map (\<lambda>(name, items). (name, Items items)) (sections d) = sections args"
  using assms validate_sections_Some [of "sections args"]
  by (auto simp: PSLDocument_init_def split: option.splits)

lemma header_fields:
  defines "H \<equiv> \<lambda>t. parse_header (join_with newline (header_lines t))"
  shows "h_version (H t) = map_option parse_version (field_line ''!psl'' t)"
    and "h_context (H t) = map_option (\<lambda>l. strip (after_colon l)) (field_line ''context:'' t)"
    and "h_goal (H t) = map_option (\<lambda>l. strip (after_colon l)) (field_line ''goal:'' t)"
    and "h_constraints (H t) = map_option parse_constraints (field_line ''constraints:'' t)"
    and "h_resources (H t) = map_option parse_resources (field_line ''resources:'' t)"
    and "h_skill (H t) = map_option parse_skill (field_line ''skill:'' t)"
  unfolding H_def
  by (rule header_field_value, rule version_step context_step goal_step constraints_step
        resources_step skill_step, simp_all add: empty_header_def)+

lemma parse_key_error_iff:
  "(\<exists>k. parse psl_text = Inl (KeyError k)) = (\<not> mandatory_header psl_text)"
proof -
  let ?h = "parse_header (join_with newline (header_lines psl_text))"
  have "(\<exists>k. parse psl_text = Inl (KeyError k))
          = (h_version ?h = None \<or> h_context ?h = None \<or> h_goal ?h = None
             \<or> h_constraints ?h = None)"
    unfolding parse_unfold Let_def
    by (auto simp: init_no_key_error split: option.splits)
  then show ?thesis
    by (auto simp: header_fields mandatory_header_def has_header_line_field)
qed

lemma parse_Inr:
  assumes "parse psl_text = Inr d"
  shows "map_option parse_version (field_line ''!psl'' psl_text) = Some (version d)"
    and "map_option (\<lambda>l. strip (after_colon l)) (field_line ''context:'' psl_text)
           = Some (doc_context d)"
    and "map_option (\<lambda>l. strip (after_colon l)) (field_line ''goal:'' psl_text) = Some (goal d)"
    and "resources d = map_option parse_resources (field_line ''resources:'' psl_text)"
    and "skill d = map_option parse_skill (field_line ''skill:'' psl_text)"
    and "map (\<lambda>(name, items). (name, Items items)) (sections d)
           = parse_sections (body_text psl_text)"
    and "parse_sections (body_text psl_text) = [] \<Longrightarrow> three_c d = None \<and> gloss d = None"
proof -
  let ?h = "parse_header (join_with newline (header_lines psl_text))"
  let ?s = "parse_sections (body_text psl_text)"
  from assms obtain v c g cs where h: "h_version ?h = Some v" "h_context ?h = Some c"
      "h_goal ?h = Some g" "h_constraints ?h = Some cs"
    and init: "PSLDocument_init
               \<lparr>version = v, doc_context = c, goal = g, constraints = cs,
                resources = h_resources ?h, skill = h_skill ?h, sections = ?s,
                three_c = dict_get ?s ''3C'', gloss = dict_get ?s ''GLOSS''\<rparr> = Inr d"
    unfolding parse_unfold Let_def by (auto split: option.splits)
  from init_fields [OF init] h
  show "map_option parse_version (field_line ''!psl'' psl_text) = Some (version d)"
    and "map_option (\<lambda>l. strip (after_colon l)) (field_line ''context:'' psl_text)
           = Some (doc_context d)"
    and "map_option (\<lambda>l. strip (after_colon l)) (field_line ''goal:'' psl_text) = Some (goal d)"
    and "resources d = map_option parse_resources (field_line ''resources:'' psl_text)"
    and "skill d = map_option parse_skill (field_line ''skill:'' psl_text)"
    and "map (\<lambda>(name, items). (name, Items items)) (sections d) = ?s"
    by (simp_all add: header_fields)
  show "three_c d = None \<and> gloss d = None" if "parse_sections (body_text psl_text) = []"
    using init that
    by (auto simp: PSLDocument_init_def dict_get_def split: option.splits)
qed

lemma no_section_parse_sections:
  assumes "no_section_line psl_text"
  shows "parse_sections (body_text psl_text) = []"
proof -
  let ?ls = "map rstrip (split_on newline psl_text)"
  let ?part = "drop (find_header_end ?ls) ?ls"
  have all: "\<forall>l\<in>set ?ls. tag_of l = None"
    using assms by (auto simp: no_section_line_def list_all_iff tag_of_rstrip)
  have sub: "set ?part \<subseteq> set ?ls"
    by (rule set_drop_subset)
  have "\<forall>l\<in>set (split_on newline (join_with newline ?part)). tag_of l = None"
    using all sub by (auto simp: lines_of_part [OF sub] tag_of_Nil)
  then show ?thesis
    unfolding body_text_def Let_def by (rule parse_sections_no_tag)
qed

lemma parse_returns:
  assumes "mandatory_header psl_text" and "no_section_line psl_text"
    and "map_option parse_constraints (field_line ''constraints:'' psl_text) = Some []"
  shows "\<exists>d. parse psl_text = Inr d"
proof -
  let ?h = "parse_header (join_with newline (header_lines psl_text))"
  from assms(1) obtain v c g where "h_version ?h = Some v" "h_context ?h = Some c"
      "h_goal ?h = Some g"
    by (auto simp: header_fields mandatory_header_def has_header_line_field)
  moreover from assms(3) have "h_constraints ?h = Some []"
    by (simp add: header_fields)
  ultimately show ?thesis
    unfolding parse_unfold Let_def
    by (simp add: no_section_parse_sections [OF assms(2)] PSLDocument_init_def dict_get_def)
qed

section \<open>The full parser returns a document or raises\<close>

text \<open>
  C1 (as stated): for every input text, \<open>parse\<close> returns a document and never raises.
  This fails for the empty text, which has no section: the header gives no version, and
  \<open>header_data['version']\<close> raises \<open>KeyError\<close>.
\<close>

theorem parse_empty_text_counterexample:
  "parse [] = Inl (KeyError ''version'')"
  by code_simp

text \<open>
  C1 (amended): \<open>parse\<close> raises \<open>KeyError\<close> exactly when the header, the lines before
  the first line beginning with \<open>[\<close>, lacks a \<open>!psl\<close> line, a \<open>context:\<close> line, a
  \<open>goal:\<close> line or a \<open>constraints:\<close> line. A document that \<open>parse\<close> returns has the
  version, context, goal, resources and skill of the last header line of each field, and
  its sections are the parsed sections of the body. For a text none of whose lines is a
  section tag line, a returned document has an empty sections mapping, no \<open>three_c\<close>
  and no \<open>gloss\<close>, and \<open>parse\<close> does return one when the header has the four fields and
  its constraints line lists no constraint.
\<close>

theorem parse_returns_or_key_error:
  "((\<exists>k. parse psl_text = Inl (KeyError k)) \<longleftrightarrow> \<not> mandatory_header psl_text)
   \<and> (\<forall>d. parse psl_text = Inr d \<longrightarrow>
          map_option parse_version (field_line ''!psl'' psl_text) = Some (version d)
        \<and> map_option (\<lambda>l. strip (after_colon l)) (field_line ''context:'' psl_text)
            = Some (doc_context d)
        \<and> map_option (\<lambda>l. strip (after_colon l)) (field_line ''goal:'' psl_text)
            = Some (goal d)
        \<and> resources d = map_option parse_resources (field_line ''resources:'' psl_text)
        \<and> skill d = map_option parse_skill (field_line ''skill:'' psl_text)
        \<and> map (\<lambda>(name, items). (name, Items items)) (sections d)
            = parse_sections (body_text psl_text))
   \<and> (no_section_line psl_text \<longrightarrow>
        (\<forall>d. parse psl_text = Inr d \<longrightarrow>
           sections d = [] \<and> three_c d = None \<and> gloss d = None))
   \<and> (mandatory_header psl_text \<and> no_section_line psl_text
        \<and> map_option parse_constraints (field_line ''constraints:'' psl_text) = Some []
      \<longrightarrow> (\<exists>d. parse psl_text = Inr d))"
proof -
  have a: "(\<exists>k. parse psl_text = Inl (KeyError k)) \<longleftrightarrow> \<not> mandatory_header psl_text"
    by (rule parse_key_error_iff)
  have c: "sections d = [] \<and> three_c d = None \<and> gloss d = None"
    if "no_section_line psl_text" and "parse psl_text = Inr d" for d
    using parse_Inr(6,7) [OF that(2)] no_section_parse_sections [OF that(1)]
    by auto
  from a c parse_Inr(1-6) parse_returns show ?thesis
    by blast
qed

theorem parse_witness:
  "parse header_only_text
     = Inr \<lparr>version = ''0.1'', doc_context = ''k'', goal = ''g'', constraints = [],
            resources = None, skill = None, sections = [], three_c = None, gloss = None\<rparr>
   \<and> parse fact_only_text
     = Inr \<lparr>version = ''0.1'', doc_context = ''k'', goal = ''g'', constraints = [],
            resources = None, skill = Some ''novice'', sections = [(''FACT'', [''a''])],
            three_c = None, gloss = None\<rparr>
   \<and> field_line ''goal:'' fact_only_text = Some ''goal: g''
   \<and> parse_sections (body_text fact_only_text) = [(''FACT'', Items [''a''])]"
proof -
  have m: "mandatory_header header_only_text"
    by code_simp
  have n: "no_section_line header_only_text"
    by code_simp
  have k: "map_option parse_constraints (field_line ''constraints:'' header_only_text) = Some []"
    by code_simp
  have p: "parse header_only_text
     = Inr \<lparr>version = ''0.1'', doc_context = ''k'', goal = ''g'', constraints = [],
            resources = None, skill = None, sections = [], three_c = None, gloss = None\<rparr>"
    by code_simp
  have q: "parse fact_only_text
     = Inr \<lparr>version = ''0.1'', doc_context = ''k'', goal = ''g'', constraints = [],
            resources = None, skill = Some ''novice'', sections = [(''FACT'', [''a''])],
            three_c = None, gloss = None\<rparr>"
    by code_simp
  have g: "field_line ''goal:'' fact_only_text = Some ''goal: g''"
    by code_simp
  from parse_returns_or_key_error [of header_only_text]
       parse_returns_or_key_error [of fact_only_text] m n k p q g
  show ?thesis by simp
qed

section \<open>The 3C section\<close>

text \<open>
  The constructor accepts neither value that the section parser can store under \<open>3C\<close>:
  the three flags are no list of strings for \<open>sections\<close>, and a list of items is no
  \<open>ThreeC\<close> for \<open>three_c\<close>. So a document that \<open>parse\<close> returns has no
  \<open>three_c\<close> value, and none comes from a text with a 3C section.
\<close>

lemma validate_sections_flags:
  "map_of secs name = Some (Flags t) \<Longrightarrow> validate_sections secs = None"
proof (induction secs)
  case Nil
  then show ?case by simp
next
  case (Cons kv secs)
  obtain k v where kv: "kv = (k, v)"
    by (cases kv)
  show ?case
  proof (cases "k = name")
    case True
    with Cons.prems kv show ?thesis by simp
  next
    case False
    with Cons.prems Cons.IH kv show ?thesis
      by (simp split: option.splits)
  qed
qed

lemma init_no_three_c:
  assumes "PSLDocument_init args = Inr d" and "three_c args = dict_get (sections args) ''3C''"
  shows "three_c d = None \<and> \<not> dict_has (sections args) ''3C''"
proof (cases "dict_get (sections args) ''3C''")
  case None
  with assms(2) have t: "three_c args = None"
    by simp
  from None have "\<not> dict_has (sections args) ''3C''"
    by (simp add: dict_get_def dict_has_def dict_keys_def map_of_eq_None_iff)
  moreover from assms(1) t have "three_c d = None"
    by (auto simp: PSLDocument_init_def split: option.splits)
  ultimately show ?thesis
    by simp
next
  case (Some v)
  show ?thesis
  proof (cases v)
    case (Items items)
    with Some assms show ?thesis
      by (simp add: PSLDocument_init_def split: option.splits)
  next
    case (Flags t)
    with Some have "validate_sections (sections args) = None"
      using validate_sections_flags [of "sections args" "''3C''" t] by (simp add: dict_get_def)
    with assms show ?thesis
      by (simp add: PSLDocument_init_def split: option.splits)
  qed
qed

lemma parse_no_three_c:
  assumes "parse psl_text = Inr d"
  shows "three_c d = None \<and> \<not> dict_has (parse_sections (body_text psl_text)) ''3C''"
proof -
  from assms obtain args where "PSLDocument_init args = Inr d"
    and "three_c args = dict_get (sections args) ''3C''"
    and "sections args = parse_sections (body_text psl_text)"
    unfolding parse_unfold Let_def by (auto split: option.splits)
  with init_no_three_c [of args d] show ?thesis
    by simp
qed




section \<open>Sections without items\<close>

text \<open>
  C10 (as stated): for every input, a section with zero items appears in the sections
  mapping iff another section tag follows it. This fails once the 3C sub-parse has stopped
  the scan: in the lines \<open>[3C]\<close>, \<open>clear: yes\<close>, \<open>[HYP]\<close>, \<open>[GLOSS]\<close> the section
  HYP has no items and is followed by another tag, and it is not in the mapping.
\<close>

theorem empty_section_after_break_counterexample:
  "parse_sections break_text
     = [(''3C'', Flags \<lparr>clear = True, cheap = False, safe = False\<rparr>)]
   \<and> \<not> dict_has (parse_sections break_text) ''HYP''"
  by code_simp

text \<open>
  C10 (amended): for every input in which no 3C section comes before it, a section with a
  non-empty tag other than 3C, whose tag no other tag line of the input carries and which
  has zero items, appears in the sections mapping iff another section tag line follows
  it, and then with an empty item list; the last open section without items is dropped.
\<close>

theorem empty_section_kept_iff_tag_follows:
  assumes "split_on newline text = pre @ [t] @ mid @ rest"
    and "\<forall>p\<in>set pre. tag_of p \<noteq> Some ''3C''"
    and "tag_of t = Some T" and "T \<noteq> []" and "T \<noteq> ''3C''"
    and "\<forall>x\<in>set (pre @ rest). tag_of x \<noteq> Some T"
    and "\<forall>m\<in>set mid. tag_of m = None \<and> \<not> is_list_item (strip m)"
    and "rest = [] \<or> tag_of (hd rest) \<noteq> None"
  shows "(dict_has (parse_sections text) T \<longleftrightarrow> rest \<noteq> [])
         \<and> (rest \<noteq> [] \<longrightarrow> dict_get (parse_sections text) T = Some (Items []))"
proof -
  from assms(6) have preT: "\<forall>p\<in>set pre. tag_of p \<noteq> Some T"
    and restT: "\<forall>x\<in>set rest. tag_of x \<noteq> Some T"
    by auto
  obtain secs where run: "scan_lines text (pre @ [t]) initial_state
       = (\<lparr>st_sections = secs, current_section = Some T, current_items = []\<rparr>, False)"
    and none: "map_of secs T = None"
    using scan_until_tag [OF assms(2) assms(3)] preT by blast
  let ?s2 = "\<lparr>st_sections = secs, current_section = Some T, current_items = []\<rparr>"
  have mid: "scan_lines text mid ?s2 = (?s2, False)"
    using assms(5,7) by (intro scan_lines_ignored) simp
  have upto: "scan_lines text ((pre @ [t]) @ mid @ rest) initial_state = scan_lines text rest ?s2"
    using run mid by (simp add: scan_lines_append del: append_assoc)
  show ?thesis
  proof (cases rest)
    case Nil
    with upto assms(1) have "scan_lines text (split_on newline text) initial_state = (?s2, False)"
      by simp
    then have "parse_sections text = secs"
      by (simp add: parse_sections_def last_section_def)
    with none Nil show ?thesis
      by (simp add: dict_has_map_of)
  next
    case (Cons r rs)
    with assms(8) obtain R where R: "tag_of r = Some R"
      by auto
    from restT Cons R have RT: "R \<noteq> T"
      by auto
    let ?s3 = "\<lparr>st_sections = dict_set T (Items []) secs, current_section = Some R,
                current_items = []\<rparr>"
    have step: "scan_line text r ?s2 = (?s3, False)"
      using scan_line_tag [OF R, of "text" ?s2] assms(4)
      by (simp add: truthy_def save_section_def)
    obtain s4 b4 where s4: "scan_lines text rs ?s3 = (s4, b4)"
      by (cases "scan_lines text rs ?s3")
    from scan_lines_other_key [of ?s3 T rs "text"] restT Cons RT s4
    have keep: "map_of (st_sections s4) T = Some (Items [])"
      and cur: "current_section s4 \<noteq> Some T"
      by (simp_all add: map_of_dict_set)
    have "scan_lines text (split_on newline text) initial_state = (s4, b4)"
      using upto assms(1) Cons step s4 by simp
    then have "map_of (parse_sections text) T = Some (Items [])"
      using last_section_other_key [OF cur] keep by (simp add: parse_sections_def)
    with Cons show ?thesis
      by (simp add: dict_has_map_of dict_get_def)
  qed
qed

theorem empty_section_witness:
  "dict_get (parse_sections empty_sections_text) ''HYP'' = Some (Items [])
   \<and> \<not> dict_has (parse_sections empty_sections_text) ''SAFETY''
   \<and> parse_sections empty_sections_text
       = [(''FACT'', Items [''a'']), (''HYP'', Items []), (''ROLLBACK'', Items [''b''])]"
proof -
  have h1: "split_on newline empty_sections_text
              = [''[FACT]'', ''- a''] @ [''[HYP]''] @ [''note'']
                @ [''[ROLLBACK]'', ''- b'', ''[SAFETY]'']"
    by code_simp
  have h2: "\<forall>p\<in>set [''[FACT]'', ''- a'']. tag_of p \<noteq> Some ''3C''"
    by code_simp
  have h3: "tag_of ''[HYP]'' = Some ''HYP''"
    by code_simp
  have h4: "''HYP'' \<noteq> []" and h5: "''HYP'' \<noteq> ''3C''"
    by simp_all
  have h6: "\<forall>x\<in>set ([''[FACT]'', ''- a''] @ [''[ROLLBACK]'', ''- b'', ''[SAFETY]'']).
              tag_of x \<noteq> Some ''HYP''"
    by code_simp
  have h7: "\<forall>m\<in>set [''note'']. tag_of m = None \<and> \<not> is_list_item (strip m)"
    by code_simp
  have h8: "[''[ROLLBACK]'', ''- b'', ''[SAFETY]''] = []
            \<or> tag_of (hd [''[ROLLBACK]'', ''- b'', ''[SAFETY]'']) \<noteq> None"
    by code_simp
  have g1: "split_on newline empty_sections_text
              = [''[FACT]'', ''- a'', ''[HYP]'', ''note'', ''[ROLLBACK]'', ''- b'']
                @ [''[SAFETY]''] @ [] @ []"
    by code_simp
  have g2: "\<forall>p\<in>set [''[FACT]'', ''- a'', ''[HYP]'', ''note'', ''[ROLLBACK]'', ''- b''].
              tag_of p \<noteq> Some ''3C''"
    by code_simp
  have g3: "tag_of ''[SAFETY]'' = Some ''SAFETY''"
    by code_simp
  have g4: "''SAFETY'' \<noteq> []" and g5: "''SAFETY'' \<noteq> ''3C''"
    by simp_all
  have g6: "\<forall>x\<in>set ([''[FACT]'', ''- a'', ''[HYP]'', ''note'', ''[ROLLBACK]'', ''- b''] @ []).
              tag_of x \<noteq> Some ''SAFETY''"
    by code_simp
  have g7: "\<forall>m\<in>set []. tag_of m = None \<and> \<not> is_list_item (strip m)"
    by simp
  have g8: "([]::string list) = [] \<or> tag_of (hd []) \<noteq> None"
    by simp
  have all: "parse_sections empty_sections_text
       = [(''FACT'', Items [''a'']), (''HYP'', Items []), (''ROLLBACK'', Items [''b''])]"
    by code_simp
  from empty_section_kept_iff_tag_follows [OF h1 h2 h3 h4 h5 h6 h7 h8]
       empty_section_kept_iff_tag_follows [OF g1 g2 g3 g4 g5 g6 g7 g8] all
  show ?thesis by simp
qed

section \<open>List items\<close>

text \<open>
  C7: inside a section, every line that starts with \<open>-\<close> or with an ordinal \<open>1)\<close> to
  \<open>9)\<close> is appended to the items of the section with exactly its marker stripped. The
  code does otherwise: the item \<open>- 600g beef\<close> is stored as \<open>g beef\<close>, since the digits
  after the marker are stripped with it, and the line \<open>3) stir\<close> is not taken as an item
  at all, so that the section, left without items, is dropped.
\<close>

theorem list_item_marker_evaluation:
  "parse_sections (text_of_lines [''[FACT]'', ''- 600g beef'']) = [(''FACT'', Items [''g beef''])]
   \<and> parse_sections (text_of_lines [''[FACT]'', ''3) stir'']) = []
   \<and> parse_sections (text_of_lines [''[FACT]'', ''2) stir'']) = [(''FACT'', Items [''stir''])]"
  by code_simp

end
